theory Spec2Isabelle
  imports Complex_Main
begin

section \<open>Timers of the host\<close>












section \<open>debounce\<close>










section \<open>throttle\<close>









section \<open>isInViewport\<close>













section \<open>FAQ\<close>

text \<open>
  An item of \<open>this.faqItems\<close> with what \<open>querySelector\<close> finds in it: its question with
  the attribute \<open>aria-expanded\<close> (\<open>None\<close> when absent) and its answer with the class
  \<open>active\<close>; either may be \<open>null\<close>. Items are told apart by their position in the list,
  and different items have different questions.
\<close>

datatype error = TypeError

record faq_question =
  aria_expanded :: "string option"

record faq_answer =
  active :: bool

record faq_item =
  item_question :: "faq_question option"
  item_answer :: "faq_answer option"

text \<open>
  The loop "close all other FAQs" from item \<open>j\<close> on, for the activated question of item
  \<open>i\<close>. A \<open>null\<close> question or answer of another item raises a TypeError, which ends the
  loop with the items changed so far.
\<close>

fun close_others :: "nat \<Rightarrow> nat \<Rightarrow> faq_item list \<Rightarrow> faq_item list \<times> error option" where
  "close_others i j [] = ([], None)"
| "close_others i j (it # its) =
     (if j \<noteq> i then
        (case item_question it of
           None \<Rightarrow> (it # its, Some TypeError)
         | Some q \<Rightarrow>
             (let it1 = it\<lparr>item_question := Some (q\<lparr>aria_expanded := Some ''false''\<rparr>)\<rparr>
              in case item_answer it1 of
                   None \<Rightarrow> (it1 # its, Some TypeError)
                 | Some a \<Rightarrow>
                     (let it2 = it1\<lparr>item_answer := Some (a\<lparr>active := False\<rparr>)\<rparr>
                      in case close_others i (Suc j) its of (its', e) \<Rightarrow> (it2 # its', e))))
      else (case close_others i (Suc j) its of (its', e) \<Rightarrow> (it # its', e)))"

text \<open>\<open>setAttribute\<close> stores the string of a boolean.\<close>

definition string_of_bool :: "bool \<Rightarrow> string" where
  "string_of_bool b = (if b then ''true'' else ''false'')"

definition toggleFAQ ::
  "nat \<Rightarrow> faq_question \<Rightarrow> faq_answer \<Rightarrow> faq_item list \<Rightarrow> faq_item list \<times> error option" where
  "toggleFAQ i question answer faqItems =
     (let isOpen = (aria_expanded question = Some ''true'')
      in case close_others i 0 faqItems of
           (items1, Some e) \<Rightarrow> (items1, Some e)
         | (items1, None) \<Rightarrow>
             (items1[i := (items1 ! i)
                \<lparr>item_question := Some (question\<lparr>aria_expanded := Some (string_of_bool (\<not> isOpen))\<rparr>),
                 item_answer := Some (answer\<lparr>active := \<not> isOpen\<rparr>)\<rparr>], None))"

text \<open>
  A click, Enter or Space on the question of item \<open>i\<close>. \<open>init\<close> binds the handlers only
  on items that have a question and an answer; elsewhere nothing happens.
\<close>

definition activate :: "nat \<Rightarrow> faq_item list \<Rightarrow> faq_item list \<times> error option" where
  "activate i faqItems =
     (if i < length faqItems then
        (case (item_question (faqItems ! i), item_answer (faqItems ! i)) of
           (Some q, Some a) \<Rightarrow> toggleFAQ i q a faqItems
         | _ \<Rightarrow> (faqItems, None))
      else (faqItems, None))"






section \<open>Navigation: the mobile menu\<close>

text \<open>
  The part of the page the mobile menu touches. The panel \<open>mobileMenu\<close> and the button
  \<open>mobileMenuBtn\<close> are what \<open>getElementById\<close> found (\<open>None\<close> is \<open>null\<close>). The panel
  has its class \<open>active\<close>, the \<open>.mobile-link\<close> elements inside it in document order,
  and the number of keydown listeners \<open>setFocusTrap\<close> has added. The focused element is
  \<open>document.activeElement\<close>; \<open>focus()\<close> on a link or on the button moves the focus
  there.
\<close>

datatype element = Body | MenuButton | MobileLink nat | Elsewhere nat
















section \<open>LazyLoader\<close>

text \<open>
  Images are told apart by numbers. The loader's state: the images the observer watches
  and the log of the calls of \<open>loadImage\<close>, each of which starts a load by setting the
  \<open>src\<close> of a fresh \<open>Image\<close>.
\<close>

record lazy_loader =
  images :: "nat list"
  observed :: "nat list"
  loads :: "nat list"

record entry =
  target :: nat
  isIntersecting :: bool

definition loadImage :: "nat \<Rightarrow> lazy_loader \<Rightarrow> lazy_loader" where
  "loadImage img s = s\<lparr>loads := loads s @ [img]\<rparr>"

definition unobserve :: "nat \<Rightarrow> lazy_loader \<Rightarrow> lazy_loader" where
  "unobserve img s = s\<lparr>observed := removeAll img (observed s)\<rparr>"

definition observe :: "nat \<Rightarrow> lazy_loader \<Rightarrow> lazy_loader" where
  "observe img s = (if img \<in> set (observed s) then s else s\<lparr>observed := observed s @ [img]\<rparr>)"

fun handleIntersect :: "entry list \<Rightarrow> lazy_loader \<Rightarrow> lazy_loader" where
  "handleIntersect [] s = s"
| "handleIntersect (e # es) s =
     handleIntersect es
       (if isIntersecting e then unobserve (target e) (loadImage (target e) s) else s)"

fun loadAllImages_from :: "nat list \<Rightarrow> lazy_loader \<Rightarrow> lazy_loader" where
  "loadAllImages_from [] s = s"
| "loadAllImages_from (img # imgs) s = loadAllImages_from imgs (loadImage img s)"

definition loadAllImages :: "lazy_loader \<Rightarrow> lazy_loader" where
  "loadAllImages s = loadAllImages_from (images s) s"

text \<open>
  The constructor and \<open>init\<close>, for the images that \<open>querySelectorAll\<close> returned and
  for whether the browser has \<open>IntersectionObserver\<close>.
\<close>

definition lazy_init :: "bool \<Rightarrow> nat list \<Rightarrow> lazy_loader" where
  "lazy_init supported imgs =
     (let s = \<lparr>images = imgs, observed = [], loads = []\<rparr>
      in if \<not> supported then loadAllImages s else fold observe imgs s)"

text \<open>
  The browser calls \<open>handleIntersect\<close> with a batch of entries; it reports only targets
  that the observer watches when the batch is delivered.
\<close>

definition deliver :: "entry list \<Rightarrow> lazy_loader \<Rightarrow> lazy_loader" where
  "deliver batch s = handleIntersect (filter (\<lambda>e. target e \<in> set (observed s)) batch) s"

fun deliver_all :: "entry list list \<Rightarrow> lazy_loader \<Rightarrow> lazy_loader" where
  "deliver_all [] s = s"
| "deliver_all (b # bs) s = deliver_all bs (deliver b s)"

text \<open>No image is reported as intersecting twice within the batch.\<close>

definition once_per_batch :: "entry list \<Rightarrow> bool" where
  "once_per_batch batch = distinct (map target (filter isIntersecting batch))"

section \<open>Regular expressions\<close>

text \<open>
  The two patterns of \<open>validateField\<close> are anchored at both ends, so \<open>test\<close> asks
  whether the whole string matches. Patterns are matched by derivatives. Strings are
  lists of 8-bit characters; \<open>is_space\<close> is the class \<open>\s\<close> (and what \<open>trim\<close> removes)
  on these: tab, line feed, vertical tab, form feed, carriage return, space and the
  no-break space.
\<close>

datatype rexp =
    Zero
  | Eps
  | Cls "char \<Rightarrow> bool"
  | Alt rexp rexp
  | Seq rexp rexp
  | Star rexp
  | Plus rexp
  | Opt rexp
  | Upto nat rexp

fun nullable :: "rexp \<Rightarrow> bool" where
  "nullable Zero = False"
| "nullable Eps = True"
| "nullable (Cls p) = False"
| "nullable (Alt r s) = (nullable r \<or> nullable s)"
| "nullable (Seq r s) = (nullable r \<and> nullable s)"
| "nullable (Star r) = True"
| "nullable (Plus r) = nullable r"
| "nullable (Opt r) = True"
| "nullable (Upto n r) = True"

fun deriv :: "char \<Rightarrow> rexp \<Rightarrow> rexp" where
  "deriv c Zero = Zero"
| "deriv c Eps = Zero"
| "deriv c (Cls p) = (if p c then Eps else Zero)"
| "deriv c (Alt r s) = Alt (deriv c r) (deriv c s)"
| "deriv c (Seq r s) =
     (if nullable r then Alt (Seq (deriv c r) s) (deriv c s) else Seq (deriv c r) s)"
| "deriv c (Star r) = Seq (deriv c r) (Star r)"
| "deriv c (Plus r) = Seq (deriv c r) (Star r)"
| "deriv c (Opt r) = deriv c r"
| "deriv c (Upto n r) = (if n = 0 then Zero else Seq (deriv c r) (Upto (n - 1) r))"

fun test :: "rexp \<Rightarrow> string \<Rightarrow> bool" where
  "test r [] = nullable r"
| "test r (c # cs) = test (deriv c r) cs"

definition is_space :: "char \<Rightarrow> bool" where
  "is_space c = (c = CHR 0x09 \<or> c = CHR 0x0A \<or> c = CHR 0x0B \<or> c = CHR 0x0C \<or> c = CHR 0x0D
                 \<or> c = CHR '' '' \<or> c = CHR 0xA0)"

definition is_digit :: "char \<Rightarrow> bool" where
  "is_digit c = (c \<in> set ''0123456789'')"

text \<open>\<open>String.prototype.trim\<close>.\<close>

definition trim :: "string \<Rightarrow> string" where
  "trim s = rev (dropWhile is_space (rev (dropWhile is_space s)))"

text \<open>\<open>/^[^\s@]+@[^\s@]+\.[^\s@]+$/\<close>\<close>

definition emailRegex :: rexp where
  "emailRegex =
     Seq (Plus (Cls (\<lambda>c. \<not> (is_space c \<or> c = CHR ''@''))))
    (Seq (Cls (\<lambda>c. c = CHR ''@''))
    (Seq (Plus (Cls (\<lambda>c. \<not> (is_space c \<or> c = CHR ''@''))))
    (Seq (Cls (\<lambda>c. c = CHR ''.''))
         (Plus (Cls (\<lambda>c. \<not> (is_space c \<or> c = CHR ''@'')))))))"

text \<open>\<open>/^[\+]?[1-9][\d]{0,15}$/\<close>\<close>

definition phoneRegex :: rexp where
  "phoneRegex =
     Seq (Opt (Cls (\<lambda>c. c = CHR ''+'')))
    (Seq (Cls (\<lambda>c. c \<in> set ''123456789''))
         (Upto 15 (Cls is_digit)))"

text \<open>\<open>value.replace(/[\s\-\(\)]/g, '')\<close>\<close>

definition strip_separators :: "string \<Rightarrow> string" where
  "strip_separators s =
     filter (\<lambda>c. \<not> (is_space c \<or> c = CHR ''-'' \<or> c = CHR ''('' \<or> c = CHR '')'')) s"

text \<open>
  The language of a pattern, against which the matcher is checked: concatenation,
  iteration, and up to \<open>n\<close> repetitions.
\<close>

definition conc :: "string set \<Rightarrow> string set \<Rightarrow> string set" where
  "conc A B = {xs @ ys | xs ys. xs \<in> A \<and> ys \<in> B}"

inductive_set star :: "string set \<Rightarrow> string set" for A :: "string set" where
  star_nil: "[] \<in> star A"
| star_step: "x \<in> A \<Longrightarrow> y \<in> star A \<Longrightarrow> x @ y \<in> star A"

fun upto_lang :: "nat \<Rightarrow> string set \<Rightarrow> string set" where
  "upto_lang 0 A = {[]}"
| "upto_lang (Suc n) A = insert [] (conc A (upto_lang n A))"

fun lang :: "rexp \<Rightarrow> string set" where
  "lang Zero = {}"
| "lang Eps = {[]}"
| "lang (Cls p) = {[c] | c. p c}"
| "lang (Alt r s) = lang r \<union> lang s"
| "lang (Seq r s) = conc (lang r) (lang s)"
| "lang (Star r) = star (lang r)"
| "lang (Plus r) = conc (lang r) (star (lang r))"
| "lang (Opt r) = insert [] (lang r)"
| "lang (Upto n r) = upto_lang n (lang r)"

text \<open>The characters of the three parts of an email address: no white space, no \<open>@\<close>.\<close>

definition email_char :: "char \<Rightarrow> bool" where
  "email_char c = (\<not> (is_space c \<or> c = CHR ''@''))"

section \<open>FormValidator\<close>

text \<open>
  A field of a form (an \<open>input\<close>, \<open>select\<close> or \<open>textarea\<close>) with what the validator
  reads and writes: name, type, value, default value, the attribute \<open>required\<close>, the
  class \<open>error\<close> and the attribute \<open>aria-invalid\<close>. The error elements of the document
  are found by their id, \<open>name-error\<close>; a page need not have one for every field.
\<close>

record field =
  f_name :: string
  f_type :: string
  f_value :: string
  f_default :: string
  f_required :: bool
  f_error :: bool
  f_aria_invalid :: "string option"

record error_element =
  textContent :: string
  visible :: bool

type_synonym document = "string \<rightharpoonup> error_element"

definition error_id :: "field \<Rightarrow> string" where
  "error_id fld = f_name fld @ ''-error''"

definition showFieldError :: "field \<Rightarrow> string \<Rightarrow> document \<Rightarrow> field \<times> document" where
  "showFieldError fld message doc =
     (let fld1 = fld\<lparr>f_error := True, f_aria_invalid := Some ''true''\<rparr>
      in case doc (error_id fld1) of
           None \<Rightarrow> (fld1, doc)
         | Some errorElement \<Rightarrow>
             (fld1, doc(error_id fld1 \<mapsto> errorElement\<lparr>textContent := message, visible := True\<rparr>)))"

definition clearFieldError :: "field \<Rightarrow> document \<Rightarrow> field \<times> document" where
  "clearFieldError fld doc =
     (let fld1 = fld\<lparr>f_error := False, f_aria_invalid := None\<rparr>
      in case doc (error_id fld1) of
           None \<Rightarrow> (fld1, doc)
         | Some errorElement \<Rightarrow>
             (fld1, doc(error_id fld1 \<mapsto> errorElement\<lparr>textContent := [], visible := False\<rparr>)))"

text \<open>
  The chain of checks of \<open>validateField\<close>: the values of \<open>isValid\<close> and \<open>errorMessage\<close>
  after it.
\<close>

definition check_field :: "field \<Rightarrow> bool \<times> string" where
  "check_field fld =
     (let v = trim (f_value fld); type = f_type fld; required = f_required fld
      in if required \<and> v = [] then (False, ''This field is required.'')
         else if type = ''email'' \<and> v \<noteq> [] then
           (if \<not> test emailRegex v then (False, ''Please enter a valid email address.'')
            else (True, []))
         else if type = ''tel'' \<and> v \<noteq> [] then
           (if \<not> test phoneRegex (strip_separators v)
            then (False, ''Please enter a valid phone number.'')
            else (True, []))
         else (True, []))"

definition validateField :: "field \<Rightarrow> document \<Rightarrow> bool \<times> field \<times> document" where
  "validateField fld doc =
     (let (fld1, doc1) = clearFieldError fld doc;
          (isValid, errorMessage) = check_field fld
      in if \<not> isValid then (isValid, showFieldError fld1 errorMessage doc1)
         else (isValid, fld1, doc1))"

text \<open>What the page shows next to the field: the text of its visible error element.\<close>

definition shown_message :: "field \<Rightarrow> document \<Rightarrow> string option" where
  "shown_message fld doc =
     (case doc (error_id fld) of
        None \<Rightarrow> None
      | Some e \<Rightarrow> if visible e then Some (textContent e) else None)"

definition marked_invalid :: "field \<Rightarrow> bool" where
  "marked_invalid fld = (f_error fld \<and> f_aria_invalid fld = Some ''true'')"

text \<open>
  The specification's wording of the rules: each rule with the condition under which it
  fails and its message, in priority order; the first failing rule decides.
\<close>

definition spec_rules :: "((field \<Rightarrow> bool) \<times> string) list" where
  "spec_rules =
     [(\<lambda>fld. f_required fld \<and> trim (f_value fld) = [], ''This field is required.''),
      (\<lambda>fld. f_type fld = ''email'' \<and> trim (f_value fld) \<noteq> [] \<and>
              \<not> test emailRegex (trim (f_value fld)), ''Please enter a valid email address.''),
      (\<lambda>fld. f_type fld = ''tel'' \<and> trim (f_value fld) \<noteq> [] \<and>
              \<not> test phoneRegex (strip_separators (trim (f_value fld))),
       ''Please enter a valid phone number.'')]"

definition first_failing :: "field \<Rightarrow> string option" where
  "first_failing fld = map_option snd (find (\<lambda>rule. fst rule fld) spec_rules)"

section \<open>FormValidator: submission\<close>

text \<open>
  A form with its fields (\<open>querySelectorAll('input, select, textarea')\<close>, in document
  order), its submit button (\<open>querySelector('button[type="submit"]')\<close>, \<open>None\<close> is
  \<open>null\<close>), the error elements of the document, the alerts inserted before the form
  (class and text), and the field that has the focus. The label of the button is plain
  text, so that its \<open>textContent\<close> is its \<open>innerHTML\<close>. \<open>disabled_writes\<close> records
  the values assigned to \<open>submitBtn.disabled\<close>, in order.
\<close>

record submit_button =
  disabled :: bool
  innerHTML :: string

record form =
  inputs :: "field list"
  submitBtn :: "submit_button option"
  doc :: document
  alerts :: "(string \<times> string) list"
  focused :: "nat option"
  disabled_writes :: "bool list"

text \<open>The loop over the fields: every field is validated, in order.\<close>

fun validate_inputs :: "field list \<Rightarrow> document \<Rightarrow> bool \<times> field list \<times> document" where
  "validate_inputs [] d = (True, [], d)"
| "validate_inputs (fld # flds) d =
     (let (ok, fld', d1) = validateField fld d;
          (isFormValid, flds', d2) = validate_inputs flds d1
      in (ok \<and> isFormValid, fld' # flds', d2))"

text \<open>\<open>form.querySelector('.error')\<close>: the first field with the class \<open>error\<close>.\<close>

definition firstError :: "field list \<Rightarrow> nat option" where
  "firstError flds =
     (case filter (\<lambda>i. f_error (flds ! i)) [0..<length flds] of [] \<Rightarrow> None | i # _ \<Rightarrow> Some i)"

definition showSuccessMessage :: "form \<Rightarrow> form" where
  "showSuccessMessage fm =
     fm\<lparr>alerts := alerts fm @
        [(''alert alert-success'', ''Thank you! Your message has been sent successfully.'')]\<rparr>"

definition showErrorMessage :: "form \<Rightarrow> string \<Rightarrow> form" where
  "showErrorMessage fm message = fm\<lparr>alerts := alerts fm @ [(''alert alert-error'', message)]\<rparr>"

text \<open>
  \<open>form.reset\<close> is the method that restores the default values, unless a field of the
  form is named \<open>reset\<close>: named fields of a form take precedence over its methods, so
  that \<open>form.reset\<close> is then that field and \<open>form.reset()\<close> raises a TypeError.
\<close>

definition reset_shadowed :: "form \<Rightarrow> bool" where
  "reset_shadowed fm = (''reset'' \<in> set (map f_name (inputs fm)))"

definition form_reset :: "form \<Rightarrow> form" where
  "form_reset fm = fm\<lparr>inputs := map (\<lambda>fld. fld\<lparr>f_value := f_default fld\<rparr>) (inputs fm)\<rparr>"

text \<open>
  The busy label, \<open><i class="fas fa-spinner fa-spin" aria-hidden="true"></i> Sending...\<close>
  (\<open>CHR 0x22\<close> is the double quote).
\<close>

definition sending_html :: string where
  "sending_html =
     ''<i class='' @ [CHR 0x22] @ ''fas fa-spinner fa-spin'' @ [CHR 0x22] @
     '' aria-hidden='' @ [CHR 0x22] @ ''true'' @ [CHR 0x22] @ ''></i> Sending...''"

datatype outcome = Invalid | Succeeded | Failed

text \<open>
  \<open>handleSubmit\<close>. Its result: the path taken (\<open>Invalid\<close>: returned before the
  \<open>try\<close>; \<open>Failed\<close>: the \<open>catch\<close> block ran; \<open>Succeeded\<close>: the \<open>try\<close> block ran to
  its end), the state of the form while the function awaits the two-second timer, if it
  got there, and the state when the function has finished. Nothing else touches the form
  while the function waits.
\<close>

record submission =
  path :: outcome
  pending_form :: "form option"
  final_form :: form

definition handleSubmit :: "form \<Rightarrow> submission" where
  "handleSubmit fm =
     (let (isFormValid, flds, d) = validate_inputs (inputs fm) (doc fm);
          fm1 = fm\<lparr>inputs := flds, doc := d\<rparr>
      in if \<not> isFormValid then
           \<lparr>path = Invalid, pending_form = None,
            final_form = (case firstError flds of None \<Rightarrow> fm1 | Some i \<Rightarrow> fm1\<lparr>focused := Some i\<rparr>)\<rparr>
         else
           (case submitBtn fm1 of
              None \<Rightarrow>
                \<lparr>path = Failed, pending_form = None,
                 final_form = showErrorMessage fm1
                   ''There was an error sending your message. Please try again.''\<rparr>
            | Some b \<Rightarrow>
                (let originalText = innerHTML b;
                     b1 = b\<lparr>disabled := True\<rparr>;
                     b2 = b1\<lparr>innerHTML := sending_html\<rparr>;
                     fm2 = fm1\<lparr>submitBtn := Some b2, disabled_writes := disabled_writes fm1 @ [True]\<rparr>;
                     fm3 = showSuccessMessage fm2
                 in if reset_shadowed fm3 then
                      \<lparr>path = Failed, pending_form = Some fm2,
                       final_form = showErrorMessage fm3
                         ''There was an error sending your message. Please try again.''\<rparr>
                    else
                      (let fm4 = form_reset fm3;
                           b3 = b2\<lparr>disabled := False\<rparr>;
                           b4 = b3\<lparr>innerHTML := originalText\<rparr>
                       in \<lparr>path = Succeeded, pending_form = Some fm2,
                           final_form = fm4\<lparr>submitBtn := Some b4,
                             disabled_writes := disabled_writes fm4 @ [False]\<rparr>\<rparr>))))"

definition button_disabled :: "form \<Rightarrow> bool" where
  "button_disabled fm = (case submitBtn fm of None \<Rightarrow> False | Some b \<Rightarrow> disabled b)"

text \<open>Every field passes \<open>validateField\<close>.\<close>

definition all_fields_valid :: "form \<Rightarrow> bool" where
  "all_fields_valid fm = fst (validate_inputs (inputs fm) (doc fm))"

section \<open>Properties of debounce\<close>

















section \<open>Properties of throttle\<close>















section \<open>Properties of isInViewport\<close>






section \<open>Properties of the FAQ\<close>














text \<open>
  Outside that hypothesis: with an item that lacks its answer on the page, activating the
  question of another item raises a TypeError inside the loop, before the activated item
  is toggled.
\<close>

lemma activate_incomplete_sibling:
  "activate 0
     [\<lparr>item_question = Some \<lparr>aria_expanded = Some ''false''\<rparr>, item_answer = Some \<lparr>active = False\<rparr>\<rparr>,
      \<lparr>item_question = Some \<lparr>aria_expanded = Some ''true''\<rparr>, item_answer = None\<rparr>]
   = ([\<lparr>item_question = Some \<lparr>aria_expanded = Some ''false''\<rparr>, item_answer = Some \<lparr>active = False\<rparr>\<rparr>,
       \<lparr>item_question = Some \<lparr>aria_expanded = Some ''false''\<rparr>, item_answer = None\<rparr>],
      Some TypeError)"
  by (simp add: activate_def toggleFAQ_def)

section \<open>Properties of the mobile menu\<close>










section \<open>Properties of the LazyLoader\<close>

text \<open>
  The invariant of the loader: no image was loaded twice, and no loaded image is still
  observed.
\<close>

definition loaded_unobserved :: "lazy_loader \<Rightarrow> bool" where
  "loaded_unobserved s = (distinct (loads s) \<and> set (loads s) \<inter> set (observed s) = {})"

lemma handleIntersect_inv:
  assumes "loaded_unobserved s" "distinct (map target (filter isIntersecting es))"
    "target ` set (filter isIntersecting es) \<inter> set (loads s) = {}"
  shows "loaded_unobserved (handleIntersect es s)"
  using assms
proof (induction es arbitrary: s)
  case Nil
  then show ?case by simp
next
  case (Cons e es)
  show ?case
  proof (cases "isIntersecting e")
    case False
    then show ?thesis using Cons by simp
  next
    case True
    let ?s' = "unobserve (target e) (loadImage (target e) s)"
    have 1: "loaded_unobserved ?s'"
      using Cons.prems True by (auto simp: loaded_unobserved_def unobserve_def loadImage_def)
    have 2: "distinct (map target (filter isIntersecting es))" using Cons.prems(2) True by simp
    have 3: "target ` set (filter isIntersecting es) \<inter> set (loads ?s') = {}"
      using Cons.prems(2,3) True by (auto simp: unobserve_def loadImage_def)
    from Cons.IH[OF 1 2 3] True show ?thesis by simp
  qed
qed

lemma deliver_inv:
  assumes "loaded_unobserved s" "once_per_batch batch"
  shows "loaded_unobserved (deliver batch s)"
proof -
  let ?es = "filter (\<lambda>e. target e \<in> set (observed s)) batch"
  have f: "filter isIntersecting ?es = filter (\<lambda>e. target e \<in> set (observed s)) (filter isIntersecting batch)"
    by (induction batch) auto
  have d: "distinct (map target (filter isIntersecting ?es))"
    unfolding f using assms(2) unfolding once_per_batch_def by (rule distinct_map_filter)
  have "target ` set (filter isIntersecting ?es) \<inter> set (loads s) = {}"
    using assms(1) by (auto simp: loaded_unobserved_def)
  from handleIntersect_inv[OF assms(1) d this] show ?thesis by (simp add: deliver_def)
qed

lemma deliver_all_inv:
  assumes "loaded_unobserved s" "list_all once_per_batch batches"
  shows "loaded_unobserved (deliver_all batches s)"
  using assms by (induction batches arbitrary: s) (auto intro: deliver_inv)

lemma loads_fold_observe: "loads (fold observe imgs s) = loads s"
  by (induction imgs arbitrary: s) (auto simp: observe_def)

lemma loadAllImages_from_loads: "loads (loadAllImages_from imgs s) = loads s @ imgs"
  by (induction imgs arbitrary: s) (auto simp: loadImage_def)

lemma loadAllImages_from_observed: "observed (loadAllImages_from imgs s) = observed s"
  by (induction imgs arbitrary: s) (auto simp: loadImage_def)

lemma lazy_init_inv: "distinct imgs \<Longrightarrow> loaded_unobserved (lazy_init supported imgs)"
  by (simp add: lazy_init_def loaded_unobserved_def loads_fold_observe loadAllImages_def
      loadAllImages_from_loads loadAllImages_from_observed Let_def)

lemma distinct_count_le_one: "distinct xs \<Longrightarrow> count_list xs x \<le> 1"
  by (induction xs) auto

text \<open>
  Claim C7, as stated, fails: a batch that reports the same observed image as
  intersecting twice starts two loads of it, since the second entry is handled like the
  first and nothing records that the image is already loading.
\<close>

theorem lazy_load_twice_in_one_batch:
  "count_list (loads (deliver [\<lparr>target = 1, isIntersecting = True\<rparr>, \<lparr>target = 1, isIntersecting = True\<rparr>]
      (lazy_init True [1, 2]))) 1 = 2"
  by (simp add: deliver_def lazy_init_def observe_def unobserve_def loadImage_def)

text \<open>
  Claim C7, amended. When no batch of entries reports the same image as intersecting
  more than once, at most one load of each image is ever started, whatever the number of
  batches and of entries for the image: the image is unobserved as soon as its load has
  started, and later batches no longer report it. The same holds when the browser has no
  \<open>IntersectionObserver\<close> and every image is loaded at once.
\<close>

theorem lazy_load_once:
  assumes "distinct imgs" "list_all once_per_batch batches"
  shows "count_list (loads (deliver_all batches (lazy_init supported imgs))) img \<le> 1"
proof -
  have "loaded_unobserved (deliver_all batches (lazy_init supported imgs))"
    using deliver_all_inv[OF lazy_init_inv[OF assms(1)] assms(2)] .
  then have "distinct (loads (deliver_all batches (lazy_init supported imgs)))"
    by (simp add: loaded_unobserved_def)
  then show ?thesis
    by (rule distinct_count_le_one)
qed

theorem lazy_load_once_witness:
  "distinct [1::nat, 2] \<and>
   list_all once_per_batch [[\<lparr>target = 1, isIntersecting = True\<rparr>],
      [\<lparr>target = 1, isIntersecting = True\<rparr>, \<lparr>target = 2, isIntersecting = False\<rparr>],
      [\<lparr>target = 2, isIntersecting = True\<rparr>]] \<and>
   count_list (loads (deliver_all [[\<lparr>target = 1, isIntersecting = True\<rparr>],
      [\<lparr>target = 1, isIntersecting = True\<rparr>, \<lparr>target = 2, isIntersecting = False\<rparr>],
      [\<lparr>target = 2, isIntersecting = True\<rparr>]] (lazy_init True [1, 2]))) 1 \<le> 1 \<and>
   loads (deliver_all [[\<lparr>target = 1, isIntersecting = True\<rparr>],
      [\<lparr>target = 1, isIntersecting = True\<rparr>, \<lparr>target = 2, isIntersecting = False\<rparr>],
      [\<lparr>target = 2, isIntersecting = True\<rparr>]] (lazy_init True [1, 2])) = [1, 2]"
  using lazy_load_once[of "[1, 2]" "[[\<lparr>target = 1, isIntersecting = True\<rparr>],
      [\<lparr>target = 1, isIntersecting = True\<rparr>, \<lparr>target = 2, isIntersecting = False\<rparr>],
      [\<lparr>target = 2, isIntersecting = True\<rparr>]]" True 1]
  by (simp add: once_per_batch_def deliver_def lazy_init_def observe_def unobserve_def loadImage_def)


section \<open>Properties of the patterns\<close>

lemma nil_in_conc: "[] \<in> conc A B \<longleftrightarrow> [] \<in> A \<and> [] \<in> B"
  by (auto simp: conc_def)

lemma nil_in_upto: "[] \<in> upto_lang n A"
  by (cases n) auto

lemma nullable_iff: "nullable r \<longleftrightarrow> [] \<in> lang r"
  by (induction r) (auto simp: nil_in_conc nil_in_upto star_nil)

lemma cons_in_conc:
  "c # w \<in> conc A B \<longleftrightarrow>
     ([] \<in> A \<and> c # w \<in> B) \<or> (\<exists>u v. w = u @ v \<and> c # u \<in> A \<and> v \<in> B)"
proof
  assume "c # w \<in> conc A B"
  then obtain xs ys where x: "c # w = xs @ ys" "xs \<in> A" "ys \<in> B" by (auto simp: conc_def)
  show "([] \<in> A \<and> c # w \<in> B) \<or> (\<exists>u v. w = u @ v \<and> c # u \<in> A \<and> v \<in> B)"
  proof (cases xs)
    case Nil
    with x show ?thesis by simp
  next
    case (Cons a u)
    with x have "a = c" "w = u @ ys" by simp_all
    with x Cons show ?thesis by blast
  qed
next
  assume "([] \<in> A \<and> c # w \<in> B) \<or> (\<exists>u v. w = u @ v \<and> c # u \<in> A \<and> v \<in> B)"
  then show "c # w \<in> conc A B"
  proof
    assume "[] \<in> A \<and> c # w \<in> B"
    then have "[] @ (c # w) \<in> conc A B" unfolding conc_def by blast
    then show ?thesis by simp
  next
    assume "\<exists>u v. w = u @ v \<and> c # u \<in> A \<and> v \<in> B"
    then obtain u v where "w = u @ v" "c # u \<in> A" "v \<in> B" by blast
    then have "(c # u) @ v \<in> conc A B" unfolding conc_def by blast
    then show ?thesis using \<open>w = u @ v\<close> by simp
  qed
qed

lemma cons_in_star:
  "c # w \<in> star A \<longleftrightarrow> (\<exists>u v. w = u @ v \<and> c # u \<in> A \<and> v \<in> star A)"
proof
  assume "c # w \<in> star A"
  then show "\<exists>u v. w = u @ v \<and> c # u \<in> A \<and> v \<in> star A"
  proof (induction "c # w" arbitrary: w rule: star.induct)
    case (star_step x y)
    show ?case
    proof (cases x)
      case Nil
      with star_step show ?thesis by simp
    next
      case (Cons a u)
      with star_step.hyps(4) have "a = c" "w = u @ y" by simp_all
      with star_step.hyps(1,2) Cons show ?thesis by blast
    qed
  qed
next
  assume "\<exists>u v. w = u @ v \<and> c # u \<in> A \<and> v \<in> star A"
  then obtain u v where "w = u @ v" "c # u \<in> A" "v \<in> star A" by blast
  then have "(c # u) @ v \<in> star A" by (intro star_step)
  then show "c # w \<in> star A" using \<open>w = u @ v\<close> by simp
qed

lemma upto_lang_mono: "upto_lang n A \<subseteq> upto_lang (Suc n) A"
proof (induction n)
  case 0
  then show ?case by simp
next
  case (Suc n)
  have "conc A (upto_lang n A) \<subseteq> conc A (upto_lang (Suc n) A)"
    using Suc unfolding conc_def by blast
  then show ?case by auto
qed

lemma cons_in_upto:
  "c # w \<in> upto_lang n A \<longleftrightarrow>
     n \<noteq> 0 \<and> (\<exists>u v. w = u @ v \<and> c # u \<in> A \<and> v \<in> upto_lang (n - 1) A)"
proof (induction n)
  case 0
  then show ?case by simp
next
  case (Suc n)
  have "c # w \<in> upto_lang (Suc n) A \<longleftrightarrow> c # w \<in> conc A (upto_lang n A)" by simp
  also have "\<dots> \<longleftrightarrow> ([] \<in> A \<and> c # w \<in> upto_lang n A)
      \<or> (\<exists>u v. w = u @ v \<and> c # u \<in> A \<and> v \<in> upto_lang n A)"
    by (rule cons_in_conc)
  also have "\<dots> \<longleftrightarrow> (\<exists>u v. w = u @ v \<and> c # u \<in> A \<and> v \<in> upto_lang n A)"
  proof -
    have "\<exists>u v. w = u @ v \<and> c # u \<in> A \<and> v \<in> upto_lang n A" if "c # w \<in> upto_lang n A"
    proof -
      from that Suc.IH obtain u v where "n \<noteq> 0" "w = u @ v" "c # u \<in> A" "v \<in> upto_lang (n - 1) A"
        by blast
      moreover from \<open>n \<noteq> 0\<close> have "upto_lang (n - 1) A \<subseteq> upto_lang n A"
        using upto_lang_mono[of "n - 1" A] by simp
      ultimately show ?thesis by blast
    qed
    then show ?thesis by blast
  qed
  finally show ?case by simp
qed

lemma conc_left_quotient:
  "w \<in> conc {u. c # u \<in> A} B \<longleftrightarrow> (\<exists>u v. w = u @ v \<and> c # u \<in> A \<and> v \<in> B)"
  unfolding conc_def by blast

lemma deriv_lang: "lang (deriv c r) = {w. c # w \<in> lang r}"
proof (induction r)
  case (Seq r s)
  show ?case
  proof (cases "nullable r")
    case True
    then have "[] \<in> lang r" by (simp add: nullable_iff)
    then show ?thesis using True Seq
      by (fastforce simp: cons_in_conc conc_left_quotient)
  next
    case False
    then have "[] \<notin> lang r" by (simp add: nullable_iff)
    then show ?thesis using False Seq
      by (fastforce simp: cons_in_conc conc_left_quotient)
  qed
next
  case (Star r)
  then show ?case by (fastforce simp: cons_in_star conc_left_quotient)
next
  case (Plus r)
  show ?case
  proof (rule set_eqI)
    fix w
    have "w \<in> lang (deriv c (Plus r)) \<longleftrightarrow> (\<exists>u v. w = u @ v \<and> c # u \<in> lang r \<and> v \<in> star (lang r))"
      using Plus by (simp add: conc_left_quotient)
    moreover have "c # w \<in> lang (Plus r) \<longleftrightarrow>
        ([] \<in> lang r \<and> c # w \<in> star (lang r))
        \<or> (\<exists>u v. w = u @ v \<and> c # u \<in> lang r \<and> v \<in> star (lang r))"
      by (simp add: cons_in_conc)
    moreover have "c # w \<in> star (lang r) \<longleftrightarrow> (\<exists>u v. w = u @ v \<and> c # u \<in> lang r \<and> v \<in> star (lang r))"
      by (rule cons_in_star)
    ultimately show "w \<in> lang (deriv c (Plus r)) \<longleftrightarrow> w \<in> {w. c # w \<in> lang (Plus r)}"
      by blast
  qed
next
  case (Upto n r)
  show ?case
  proof (cases "n = 0")
    case True
    then show ?thesis by simp
  next
    case False
    show ?thesis
    proof (rule set_eqI)
      fix w
      have "w \<in> lang (deriv c (Upto n r)) \<longleftrightarrow>
          (\<exists>u v. w = u @ v \<and> c # u \<in> lang r \<and> v \<in> upto_lang (n - 1) (lang r))"
        using Upto False by (simp add: conc_left_quotient)
      moreover have "c # w \<in> lang (Upto n r) \<longleftrightarrow>
          (\<exists>u v. w = u @ v \<and> c # u \<in> lang r \<and> v \<in> upto_lang (n - 1) (lang r))"
        using False by (simp add: cons_in_upto)
      ultimately show "w \<in> lang (deriv c (Upto n r)) \<longleftrightarrow> w \<in> {w. c # w \<in> lang (Upto n r)}"
        by blast
    qed
  qed
qed auto

text \<open>The matcher decides membership in the language of the pattern.\<close>

lemma test_iff_lang: "test r w \<longleftrightarrow> w \<in> lang r"
  by (induction w arbitrary: r) (simp_all add: nullable_iff deriv_lang)

lemma in_conc: "w \<in> conc A B \<longleftrightarrow> (\<exists>u v. w = u @ v \<and> u \<in> A \<and> v \<in> B)"
  unfolding conc_def by blast

lemma star_cls: "w \<in> star {[c] | c. p c} \<longleftrightarrow> (\<forall>c \<in> set w. p c)"
proof
  assume "w \<in> star {[c] | c. p c}"
  then show "\<forall>c \<in> set w. p c" by (induction rule: star.induct) auto
next
  assume "\<forall>c \<in> set w. p c"
  then show "w \<in> star {[c] | c. p c}"
  proof (induction w)
    case Nil
    then show ?case by (simp add: star_nil)
  next
    case (Cons a w)
    then have "[a] \<in> {[c] | c. p c}" "w \<in> star {[c] | c. p c}" by auto
    then have "[a] @ w \<in> star {[c] | c. p c}" by (rule star_step)
    then show ?case by simp
  qed
qed

lemma lang_plus_cls: "lang (Plus (Cls p)) = {w. w \<noteq> [] \<and> (\<forall>c \<in> set w. p c)}"
proof (rule set_eqI)
  fix w
  show "w \<in> lang (Plus (Cls p)) \<longleftrightarrow> w \<in> {w. w \<noteq> [] \<and> (\<forall>c \<in> set w. p c)}"
  proof (cases w)
    case Nil
    then show ?thesis by (simp add: nil_in_conc)
  next
    case (Cons a u)
    then show ?thesis by (auto simp: cons_in_conc star_cls)
  qed
qed

text \<open>
  The email pattern in plain terms: a local part, \<open>@\<close>, a domain, a dot and a last
  part, each part non-empty and free of white space and \<open>@\<close>.
\<close>

lemma emailRegex_pattern:
  "test emailRegex w \<longleftrightarrow>
     (\<exists>l d t. w = l @ ''@'' @ d @ ''.'' @ t \<and> l \<noteq> [] \<and> d \<noteq> [] \<and> t \<noteq> [] \<and>
        (\<forall>c \<in> set (l @ d @ t). email_char c))"
proof -
  let ?P = "{w. w \<noteq> [] \<and> (\<forall>c \<in> set w. email_char c)}"
  have P: "lang (Plus (Cls (\<lambda>c. \<not> (is_space c \<or> c = CHR ''@'')))) = ?P"
    by (simp only: lang_plus_cls email_char_def)
  have "lang emailRegex = conc ?P (conc {''@''} (conc ?P (conc {''.''} ?P)))"
    unfolding emailRegex_def lang.simps(5) P by simp
  then have L: "lang emailRegex = conc ?P (conc {''@''} (conc ?P (conc {''.''} ?P)))" .
  have main: "w \<in> lang emailRegex \<longleftrightarrow>
     (\<exists>l d t. w = l @ ''@'' @ d @ ''.'' @ t \<and> l \<in> ?P \<and> d \<in> ?P \<and> t \<in> ?P)"
  proof
    assume "w \<in> lang emailRegex"
    then obtain l r1 where 1: "w = l @ r1" "l \<in> ?P" "r1 \<in> conc {''@''} (conc ?P (conc {''.''} ?P))"
      unfolding L in_conc by blast
    from 1(3) obtain r2 where 2: "r1 = ''@'' @ r2" "r2 \<in> conc ?P (conc {''.''} ?P)"
      unfolding in_conc by blast
    from 2(2) obtain d r3 where 3: "r2 = d @ r3" "d \<in> ?P" "r3 \<in> conc {''.''} ?P"
      unfolding in_conc by blast
    from 3(3) obtain t where 4: "r3 = ''.'' @ t" "t \<in> ?P"
      unfolding in_conc by blast
    from 1 2 3 4 show "\<exists>l d t. w = l @ ''@'' @ d @ ''.'' @ t \<and> l \<in> ?P \<and> d \<in> ?P \<and> t \<in> ?P"
      by blast
  next
    assume "\<exists>l d t. w = l @ ''@'' @ d @ ''.'' @ t \<and> l \<in> ?P \<and> d \<in> ?P \<and> t \<in> ?P"
    then obtain l d t where w: "w = l @ ''@'' @ d @ ''.'' @ t" "l \<in> ?P" "d \<in> ?P" "t \<in> ?P"
      by blast
    have "''.'' @ t \<in> conc {''.''} ?P" using w(4) unfolding in_conc by blast
    then have "d @ ''.'' @ t \<in> conc ?P (conc {''.''} ?P)" using w(3) unfolding in_conc by blast
    then have "''@'' @ d @ ''.'' @ t \<in> conc {''@''} (conc ?P (conc {''.''} ?P))"
      unfolding in_conc[of _ "{''@''}"] by blast
    then have "l @ ''@'' @ d @ ''.'' @ t \<in> conc ?P (conc {''@''} (conc ?P (conc {''.''} ?P)))"
      using w(2) unfolding in_conc[of _ ?P "conc {''@''} (conc ?P (conc {''.''} ?P))"] by blast
    then show "w \<in> lang emailRegex" unfolding L w(1) .
  qed
  have eq: "(l \<in> ?P \<and> d \<in> ?P \<and> t \<in> ?P) \<longleftrightarrow>
      (l \<noteq> [] \<and> d \<noteq> [] \<and> t \<noteq> [] \<and> (\<forall>c \<in> set (l @ d @ t). email_char c))" for l d t
    by auto
  show ?thesis unfolding test_iff_lang main eq ..
qed

lemma upto_cls: "w \<in> upto_lang n {[c] | c. p c} \<longleftrightarrow> length w \<le> n \<and> (\<forall>c \<in> set w. p c)"
proof (induction w arbitrary: n)
  case Nil
  then show ?case by (simp add: nil_in_upto)
next
  case (Cons a u)
  have "a # u \<in> upto_lang n {[c] | c. p c} \<longleftrightarrow>
      n \<noteq> 0 \<and> p a \<and> u \<in> upto_lang (n - 1) {[c] | c. p c}"
    by (auto simp: cons_in_upto)
  also have "\<dots> \<longleftrightarrow> n \<noteq> 0 \<and> p a \<and> length u \<le> n - 1 \<and> (\<forall>c \<in> set u. p c)"
    by (simp only: Cons.IH)
  also have "\<dots> \<longleftrightarrow> length (a # u) \<le> n \<and> (\<forall>c \<in> set (a # u). p c)"
    by (cases n) auto
  finally show ?case .
qed

text \<open>
  The phone pattern in plain terms: an optional \<open>+\<close>, a digit from 1 to 9, and at most
  fifteen more digits.
\<close>

lemma phoneRegex_pattern:
  "test phoneRegex w \<longleftrightarrow>
     (\<exists>sign d ds. w = sign @ d # ds \<and> (sign = [] \<or> sign = ''+'') \<and> d \<in> set ''123456789'' \<and>
        length ds \<le> 15 \<and> (\<forall>c \<in> set ds. is_digit c))"
proof -
  let ?S = "{[], ''+''}" and ?D = "{[c] | c. c \<in> set ''123456789''}"
  let ?R = "upto_lang 15 {[c] | c. is_digit c}"
  have L: "lang phoneRegex = conc ?S (conc ?D ?R)"
    unfolding phoneRegex_def by auto
  have main: "w \<in> lang phoneRegex \<longleftrightarrow>
     (\<exists>sign d ds. w = sign @ d # ds \<and> sign \<in> ?S \<and> d \<in> set ''123456789'' \<and> ds \<in> ?R)"
  proof
    assume "w \<in> lang phoneRegex"
    then obtain sign r1 where 1: "w = sign @ r1" "sign \<in> ?S" "r1 \<in> conc ?D ?R"
      unfolding L in_conc by blast
    from 1(3) obtain x ds where 2: "r1 = x @ ds" "x \<in> ?D" "ds \<in> ?R"
      unfolding in_conc by blast
    from 2(2) obtain d where 3: "x = [d]" "d \<in> set ''123456789''" by blast
    from 1 2 3 have "w = sign @ d # ds" by simp
    with 1(2) 3(2) 2(3)
    show "\<exists>sign d ds. w = sign @ d # ds \<and> sign \<in> ?S \<and> d \<in> set ''123456789'' \<and> ds \<in> ?R"
      by blast
  next
    assume "\<exists>sign d ds. w = sign @ d # ds \<and> sign \<in> ?S \<and> d \<in> set ''123456789'' \<and> ds \<in> ?R"
    then obtain sign d ds where w: "w = sign @ d # ds" "sign \<in> ?S" "d \<in> set ''123456789''" "ds \<in> ?R"
      by blast
    from w(3) have "[d] \<in> ?D" by blast
    with w(4) have "[d] @ ds \<in> conc ?D ?R" unfolding in_conc by blast
    with w(2) have "sign @ [d] @ ds \<in> conc ?S (conc ?D ?R)"
      unfolding in_conc[of _ ?S] by blast
    then show "w \<in> lang phoneRegex" unfolding L w(1) by simp
  qed
  have eq: "(sign \<in> ?S \<and> d \<in> set ''123456789'' \<and> ds \<in> ?R) \<longleftrightarrow>
      ((sign = [] \<or> sign = ''+'') \<and> d \<in> set ''123456789'' \<and>
        length ds \<le> 15 \<and> (\<forall>c \<in> set ds. is_digit c))" for sign d ds
    unfolding upto_cls by auto
  show ?thesis unfolding test_iff_lang main eq ..
qed

section \<open>Properties of validateField\<close>

lemma check_field_first_failing:
  "check_field fld = (case first_failing fld of None \<Rightarrow> (True, []) | Some msg \<Rightarrow> (False, msg))"
  by (simp add: check_field_def first_failing_def spec_rules_def Let_def)

text \<open>
  Claim C2, as stated, fails: a required field whose value is blank fails the first rule
  and is marked invalid, but on a page without an error element for the field no message
  is shown, since \<open>showFieldError\<close> writes the message only if it finds that element.
\<close>

theorem validateField_no_error_element:
  "first_failing \<lparr>f_name = ''phone'', f_type = ''tel'', f_value = ''   '', f_default = [],
        f_required = True, f_error = False, f_aria_invalid = None\<rparr> = Some ''This field is required.''
   \<and> shown_message
       (fst (snd (validateField \<lparr>f_name = ''phone'', f_type = ''tel'', f_value = ''   '', f_default = [],
        f_required = True, f_error = False, f_aria_invalid = None\<rparr> Map.empty)))
       (snd (snd (validateField \<lparr>f_name = ''phone'', f_type = ''tel'', f_value = ''   '', f_default = [],
        f_required = True, f_error = False, f_aria_invalid = None\<rparr> Map.empty))) = None"
  by (simp add: first_failing_def spec_rules_def trim_def is_space_def validateField_def
      clearFieldError_def showFieldError_def check_field_def shown_message_def error_id_def)

text \<open>
  Claim C2, amended. For every field, with its value trimmed: the rules are (1) required
  and empty, (2) of type email, not empty and not matching the email pattern, (3) of type
  tel, not empty and not matching the phone pattern once white space, hyphens and
  parentheses are removed. The field is valid if and only if no rule fails; then it is not
  marked and no message is shown. Otherwise the first failing rule decides alone: the
  field is marked invalid, by the class \<open>error\<close> and by \<open>aria-invalid\<close>, and the error
  element of the field, when the page has one, shows the message of that rule.
\<close>

theorem validateField_first_failing:
  "fst (validateField fld d) = (first_failing fld = None) \<and>
   (case first_failing fld of
      None \<Rightarrow> \<not> f_error (fst (snd (validateField fld d))) \<and>
              f_aria_invalid (fst (snd (validateField fld d))) = None \<and>
              shown_message (fst (snd (validateField fld d))) (snd (snd (validateField fld d))) = None
    | Some msg \<Rightarrow> marked_invalid (fst (snd (validateField fld d))) \<and>
              shown_message (fst (snd (validateField fld d))) (snd (snd (validateField fld d)))
                = map_option (\<lambda>e. msg) (d (error_id fld)))"
proof (cases "first_failing fld")
  case None
  then have c: "check_field fld = (True, [])" by (simp add: check_field_first_failing)
  show ?thesis
    using None
    by (auto simp: validateField_def c clearFieldError_def shown_message_def error_id_def Let_def
        split: option.splits)
next
  case (Some msg)
  then have c: "check_field fld = (False, msg)" by (simp add: check_field_first_failing)
  show ?thesis
    using Some
    by (auto simp: validateField_def c clearFieldError_def showFieldError_def shown_message_def
        marked_invalid_def error_id_def Let_def split: option.splits)
qed

theorem validateField_first_failing_witness:
  "first_failing \<lparr>f_name = ''email'', f_type = ''email'', f_value = ''   '', f_default = [],
       f_required = True, f_error = False, f_aria_invalid = None\<rparr> = Some ''This field is required.'' \<and>
   \<not> fst (validateField \<lparr>f_name = ''email'', f_type = ''email'', f_value = ''   '', f_default = [],
       f_required = True, f_error = False, f_aria_invalid = None\<rparr> [''email-error'' \<mapsto> \<lparr>textContent = [], visible = False\<rparr>]) \<and>
   marked_invalid (fst (snd (validateField \<lparr>f_name = ''email'', f_type = ''email'', f_value = ''   '', f_default = [],
       f_required = True, f_error = False, f_aria_invalid = None\<rparr> [''email-error'' \<mapsto> \<lparr>textContent = [], visible = False\<rparr>]))) \<and>
   shown_message (fst (snd (validateField \<lparr>f_name = ''email'', f_type = ''email'', f_value = ''   '', f_default = [],
       f_required = True, f_error = False, f_aria_invalid = None\<rparr> [''email-error'' \<mapsto> \<lparr>textContent = [], visible = False\<rparr>]))) (snd (snd (validateField \<lparr>f_name = ''email'', f_type = ''email'', f_value = ''   '', f_default = [],
       f_required = True, f_error = False, f_aria_invalid = None\<rparr> [''email-error'' \<mapsto> \<lparr>textContent = [], visible = False\<rparr>])))
     = Some ''This field is required.''"
  using validateField_first_failing[of "\<lparr>f_name = ''email'', f_type = ''email'', f_value = ''   '', f_default = [],
       f_required = True, f_error = False, f_aria_invalid = None\<rparr>" "[''email-error'' \<mapsto> \<lparr>textContent = [], visible = False\<rparr>]"]
  by (simp add: first_failing_def spec_rules_def trim_def is_space_def error_id_def)

lemma bad_email: "\<not> test emailRegex ''not-an-email''"
  by (simp add: emailRegex_def is_space_def)

lemma good_email: "test emailRegex ''user@example.com''"
  by (simp add: emailRegex_def is_space_def)

lemma trim_bad: "trim ''not-an-email'' = ''not-an-email''"
  by (simp add: trim_def is_space_def)

lemma trim_good: "trim ''user@example.com'' = ''user@example.com''"
  by (simp add: trim_def is_space_def)

text \<open>
  Claim C9, as stated, fails in its second half of the first example: the field with the
  value \<open>not-an-email\<close> fails validation, but on a page without an error element for it
  no message is shown.
\<close>

theorem email_example_no_error_element:
  "\<not> fst (validateField \<lparr>f_name = ''email'', f_type = ''email'', f_value = ''not-an-email'', f_default = [],
       f_required = True, f_error = False, f_aria_invalid = None\<rparr> Map.empty) \<and>
   shown_message (fst (snd (validateField \<lparr>f_name = ''email'', f_type = ''email'', f_value = ''not-an-email'', f_default = [],
       f_required = True, f_error = False, f_aria_invalid = None\<rparr> Map.empty)))
     (snd (snd (validateField \<lparr>f_name = ''email'', f_type = ''email'', f_value = ''not-an-email'', f_default = [],
       f_required = True, f_error = False, f_aria_invalid = None\<rparr> Map.empty))) = None"
  by (simp add: validateField_def clearFieldError_def showFieldError_def check_field_def trim_def
      is_space_def emailRegex_def shown_message_def error_id_def)

text \<open>
  Claim C9, amended. Validating a field of type email with the value \<open>not-an-email\<close>
  fails with the message "Please enter a valid email address.": the field is marked
  invalid and its error element, when the page has one, shows that message. Validating a
  field of type email with the value \<open>user@example.com\<close> passes, and leaves the field
  unmarked and no message shown.
\<close>

theorem email_examples:
  assumes "f_type bad = ''email''" "f_value bad = ''not-an-email''"
    and "f_type good = ''email''" "f_value good = ''user@example.com''"
  shows "\<not> fst (validateField bad d)
     \<and> check_field bad = (False, ''Please enter a valid email address.'')
     \<and> marked_invalid (fst (snd (validateField bad d)))
     \<and> shown_message (fst (snd (validateField bad d))) (snd (snd (validateField bad d)))
          = map_option (\<lambda>e. ''Please enter a valid email address.'') (d (error_id bad))
     \<and> fst (validateField good d)
     \<and> \<not> f_error (fst (snd (validateField good d)))
     \<and> shown_message (fst (snd (validateField good d))) (snd (snd (validateField good d))) = None"
proof -
  have cb: "check_field bad = (False, ''Please enter a valid email address.'')"
    using assms(1,2) by (simp add: check_field_def trim_bad bad_email del: test.simps)
  have cg: "check_field good = (True, [])"
    using assms(3,4) by (simp add: check_field_def trim_good good_email del: test.simps)
  have b: "\<not> fst (validateField bad d)" "marked_invalid (fst (snd (validateField bad d)))"
     "shown_message (fst (snd (validateField bad d))) (snd (snd (validateField bad d)))
          = map_option (\<lambda>e. ''Please enter a valid email address.'') (d (error_id bad))"
    by (auto simp: validateField_def cb clearFieldError_def showFieldError_def shown_message_def
        marked_invalid_def error_id_def Let_def split: option.splits)
  have g: "fst (validateField good d)" "\<not> f_error (fst (snd (validateField good d)))"
     "shown_message (fst (snd (validateField good d))) (snd (snd (validateField good d))) = None"
    by (auto simp: validateField_def cg clearFieldError_def shown_message_def
        error_id_def Let_def split: option.splits)
  show ?thesis using cb b g by simp
qed

theorem email_examples_witness:
  "f_type \<lparr>f_name = ''email'', f_type = ''email'', f_value = ''not-an-email'', f_default = [],
       f_required = True, f_error = False, f_aria_invalid = None\<rparr> = ''email'' \<and> f_value \<lparr>f_name = ''email'', f_type = ''email'', f_value = ''not-an-email'', f_default = [],
       f_required = True, f_error = False, f_aria_invalid = None\<rparr> = ''not-an-email'' \<and>
   f_type \<lparr>f_name = ''email'', f_type = ''email'', f_value = ''user@example.com'', f_default = [],
       f_required = False, f_error = True, f_aria_invalid = Some ''true''\<rparr> = ''email'' \<and> f_value \<lparr>f_name = ''email'', f_type = ''email'', f_value = ''user@example.com'', f_default = [],
       f_required = False, f_error = True, f_aria_invalid = Some ''true''\<rparr> = ''user@example.com'' \<and>
   \<not> fst (validateField \<lparr>f_name = ''email'', f_type = ''email'', f_value = ''not-an-email'', f_default = [],
       f_required = True, f_error = False, f_aria_invalid = None\<rparr> [''email-error'' \<mapsto> \<lparr>textContent = [], visible = False\<rparr>]) \<and>
   shown_message (fst (snd (validateField \<lparr>f_name = ''email'', f_type = ''email'', f_value = ''not-an-email'', f_default = [],
       f_required = True, f_error = False, f_aria_invalid = None\<rparr> [''email-error'' \<mapsto> \<lparr>textContent = [], visible = False\<rparr>]))) (snd (snd (validateField \<lparr>f_name = ''email'', f_type = ''email'', f_value = ''not-an-email'', f_default = [],
       f_required = True, f_error = False, f_aria_invalid = None\<rparr> [''email-error'' \<mapsto> \<lparr>textContent = [], visible = False\<rparr>])))
     = Some ''Please enter a valid email address.'' \<and>
   fst (validateField \<lparr>f_name = ''email'', f_type = ''email'', f_value = ''user@example.com'', f_default = [],
       f_required = False, f_error = True, f_aria_invalid = Some ''true''\<rparr> [''email-error'' \<mapsto> \<lparr>textContent = [], visible = False\<rparr>]) \<and>
   \<not> f_error (fst (snd (validateField \<lparr>f_name = ''email'', f_type = ''email'', f_value = ''user@example.com'', f_default = [],
       f_required = False, f_error = True, f_aria_invalid = Some ''true''\<rparr> [''email-error'' \<mapsto> \<lparr>textContent = [], visible = False\<rparr>])))"
  using email_examples[of "\<lparr>f_name = ''email'', f_type = ''email'', f_value = ''not-an-email'', f_default = [],
       f_required = True, f_error = False, f_aria_invalid = None\<rparr>" "\<lparr>f_name = ''email'', f_type = ''email'', f_value = ''user@example.com'', f_default = [],
       f_required = False, f_error = True, f_aria_invalid = Some ''true''\<rparr>" "[''email-error'' \<mapsto> \<lparr>textContent = [], visible = False\<rparr>]"]
  by (simp add: error_id_def)

section \<open>Properties of handleSubmit\<close>

lemma validate_inputs_names:
  "map f_name (fst (snd (validate_inputs flds d))) = map f_name flds"
proof (induction flds arbitrary: d)
  case Nil
  then show ?case by simp
next
  case (Cons fld flds)
  obtain ok fld' d1 where v: "validateField fld d = (ok, fld', d1)" by (cases "validateField fld d")
  obtain ok2 flds' d2 where r: "validate_inputs flds d1 = (ok2, flds', d2)" by (cases "validate_inputs flds d1")
  have n: "f_name fld' = f_name fld"
    using v by (auto simp: validateField_def clearFieldError_def showFieldError_def Let_def
        split: prod.splits option.splits if_splits)
  from Cons.IH[of d1] r have "map f_name flds' = map f_name flds" by simp
  then show ?case using v r n by simp
qed

lemma handleSubmit_valid:
  assumes "all_fields_valid fm" "submitBtn fm = Some b"
  shows "map_option button_disabled (pending_form (handleSubmit fm)) = Some True"
   and "path (handleSubmit fm) = (if reset_shadowed fm then Failed else Succeeded)"
   and "button_disabled (final_form (handleSubmit fm)) = reset_shadowed fm"
   and "disabled_writes (final_form (handleSubmit fm)) =
          disabled_writes fm @ (if reset_shadowed fm then [True] else [True, False])"
proof -
  obtain ok flds d where v0: "validate_inputs (inputs fm) (doc fm) = (ok, flds, d)"
    by (cases "validate_inputs (inputs fm) (doc fm)")
  with assms(1) have v: "validate_inputs (inputs fm) (doc fm) = (True, flds, d)"
    by (simp add: all_fields_valid_def)
  have "map f_name flds = map f_name (inputs fm)"
    using validate_inputs_names[of "inputs fm" "doc fm"] v by simp
  then have n: "f_name ` set flds = f_name ` set (inputs fm)"
    by (metis set_map)
  show "map_option button_disabled (pending_form (handleSubmit fm)) = Some True"
    using assms(2) by (simp add: handleSubmit_def v Let_def button_disabled_def)
  show "path (handleSubmit fm) = (if reset_shadowed fm then Failed else Succeeded)"
    using assms(2) by (simp add: handleSubmit_def v Let_def reset_shadowed_def showSuccessMessage_def n)
  show "button_disabled (final_form (handleSubmit fm)) = reset_shadowed fm"
    using assms(2) by (simp add: handleSubmit_def v Let_def reset_shadowed_def n button_disabled_def
        showErrorMessage_def showSuccessMessage_def form_reset_def)
  show "disabled_writes (final_form (handleSubmit fm)) =
          disabled_writes fm @ (if reset_shadowed fm then [True] else [True, False])"
    using assms(2) by (simp add: handleSubmit_def v Let_def reset_shadowed_def n
        showErrorMessage_def showSuccessMessage_def form_reset_def)
qed

text \<open>
  Claim C1 fails in the failure outcome. The form below has one valid field, named
  \<open>reset\<close>, and an enabled submit button. All fields validate, the button is disabled
  while the function waits, \<open>form.reset()\<close> then raises and the \<open>catch\<close> block runs:
  it shows the error alert and leaves the button disabled. \<open>true\<close> is the only value
  ever assigned to \<open>disabled\<close>.
\<close>

theorem handleSubmit_failure_leaves_disabled:
  "all_fields_valid \<lparr>inputs = [\<lparr>f_name = ''reset'', f_type = ''text'', f_value = ''hello'', f_default = [],
          f_required = True, f_error = False, f_aria_invalid = None\<rparr>],
      submitBtn = Some \<lparr>disabled = False, innerHTML = ''Send''\<rparr>,
      doc = Map.empty, alerts = [], focused = None, disabled_writes = []\<rparr> \<and>
   path (handleSubmit \<lparr>inputs = [\<lparr>f_name = ''reset'', f_type = ''text'', f_value = ''hello'', f_default = [],
          f_required = True, f_error = False, f_aria_invalid = None\<rparr>],
      submitBtn = Some \<lparr>disabled = False, innerHTML = ''Send''\<rparr>,
      doc = Map.empty, alerts = [], focused = None, disabled_writes = []\<rparr>) = Failed \<and>
   map_option button_disabled (pending_form (handleSubmit \<lparr>inputs = [\<lparr>f_name = ''reset'', f_type = ''text'', f_value = ''hello'', f_default = [],
          f_required = True, f_error = False, f_aria_invalid = None\<rparr>],
      submitBtn = Some \<lparr>disabled = False, innerHTML = ''Send''\<rparr>,
      doc = Map.empty, alerts = [], focused = None, disabled_writes = []\<rparr>)) = Some True \<and>
   button_disabled (final_form (handleSubmit \<lparr>inputs = [\<lparr>f_name = ''reset'', f_type = ''text'', f_value = ''hello'', f_default = [],
          f_required = True, f_error = False, f_aria_invalid = None\<rparr>],
      submitBtn = Some \<lparr>disabled = False, innerHTML = ''Send''\<rparr>,
      doc = Map.empty, alerts = [], focused = None, disabled_writes = []\<rparr>)) \<and>
   disabled_writes (final_form (handleSubmit \<lparr>inputs = [\<lparr>f_name = ''reset'', f_type = ''text'', f_value = ''hello'', f_default = [],
          f_required = True, f_error = False, f_aria_invalid = None\<rparr>],
      submitBtn = Some \<lparr>disabled = False, innerHTML = ''Send''\<rparr>,
      doc = Map.empty, alerts = [], focused = None, disabled_writes = []\<rparr>)) = [True]"
  by (simp add: all_fields_valid_def handleSubmit_def validateField_def clearFieldError_def
       check_field_def trim_def is_space_def error_id_def reset_shadowed_def showSuccessMessage_def
       showErrorMessage_def button_disabled_def Let_def)

text \<open>The success outcome, for comparison: the button is enabled again, once.\<close>

lemma handleSubmit_success_example:
  "all_fields_valid \<lparr>inputs = [\<lparr>f_name = ''email'', f_type = ''email'', f_value = ''user@example.com'', f_default = [],
          f_required = True, f_error = False, f_aria_invalid = None\<rparr>],
      submitBtn = Some \<lparr>disabled = False, innerHTML = ''Send''\<rparr>,
      doc = Map.empty, alerts = [], focused = None, disabled_writes = []\<rparr> \<and>
   path (handleSubmit \<lparr>inputs = [\<lparr>f_name = ''email'', f_type = ''email'', f_value = ''user@example.com'', f_default = [],
          f_required = True, f_error = False, f_aria_invalid = None\<rparr>],
      submitBtn = Some \<lparr>disabled = False, innerHTML = ''Send''\<rparr>,
      doc = Map.empty, alerts = [], focused = None, disabled_writes = []\<rparr>) = Succeeded \<and>
   map_option button_disabled (pending_form (handleSubmit \<lparr>inputs = [\<lparr>f_name = ''email'', f_type = ''email'', f_value = ''user@example.com'', f_default = [],
          f_required = True, f_error = False, f_aria_invalid = None\<rparr>],
      submitBtn = Some \<lparr>disabled = False, innerHTML = ''Send''\<rparr>,
      doc = Map.empty, alerts = [], focused = None, disabled_writes = []\<rparr>)) = Some True \<and>
   \<not> button_disabled (final_form (handleSubmit \<lparr>inputs = [\<lparr>f_name = ''email'', f_type = ''email'', f_value = ''user@example.com'', f_default = [],
          f_required = True, f_error = False, f_aria_invalid = None\<rparr>],
      submitBtn = Some \<lparr>disabled = False, innerHTML = ''Send''\<rparr>,
      doc = Map.empty, alerts = [], focused = None, disabled_writes = []\<rparr>)) \<and>
   disabled_writes (final_form (handleSubmit \<lparr>inputs = [\<lparr>f_name = ''email'', f_type = ''email'', f_value = ''user@example.com'', f_default = [],
          f_required = True, f_error = False, f_aria_invalid = None\<rparr>],
      submitBtn = Some \<lparr>disabled = False, innerHTML = ''Send''\<rparr>,
      doc = Map.empty, alerts = [], focused = None, disabled_writes = []\<rparr>)) = [True, False]"
  using handleSubmit_valid[of "\<lparr>inputs = [\<lparr>f_name = ''email'', f_type = ''email'', f_value = ''user@example.com'', f_default = [],
          f_required = True, f_error = False, f_aria_invalid = None\<rparr>],
      submitBtn = Some \<lparr>disabled = False, innerHTML = ''Send''\<rparr>,
      doc = Map.empty, alerts = [], focused = None, disabled_writes = []\<rparr>" "\<lparr>disabled = False, innerHTML = ''Send''\<rparr>"]
  by (simp add: all_fields_valid_def validateField_def clearFieldError_def
       check_field_def trim_def is_space_def emailRegex_def error_id_def reset_shadowed_def)


end
